theory Spec2Isabelle
  imports
    Complex_Main
    "HOL-Library.Sublist"
    "HOL-Library.Char_ord"
    "HOL-Library.List_Lexorder"
    "HOL-Library.Product_Lexorder"
begin

section \<open>Python strings\<close>

text \<open>
  The scripts read a log file in text mode and work on \<open>str\<close> values.  A \<open>str\<close> is
  modelled as a \<open>string\<close>; the characters are the code points below 256.  In that range
  the only characters of class \<open>\d\<close> are the ASCII digits, and the white space removed
  by \<open>str.strip()\<close> is the set \<open>is_space\<close> below.
\<close>

datatype error = ValueError | KeyError

text \<open>\<open>sub in s\<close>\<close>

fun contains :: "string \<Rightarrow> string \<Rightarrow> bool" where
  "contains sub [] = (sub = [])"
| "contains sub (c # cs) = (prefix sub (c # cs) \<or> contains sub cs)"

text \<open>\<open>s.startswith(p)\<close>\<close>

definition startswith :: "string \<Rightarrow> string \<Rightarrow> bool" where
  "startswith s p = prefix p s"

definition is_space :: "char \<Rightarrow> bool" where
  "is_space c = (of_char c \<in> {9, 10, 11, 12, 13, 28, 29, 30, 31, 32, 133, 160 :: nat})"

text \<open>\<open>s.strip()\<close>\<close>

definition strip :: "string \<Rightarrow> string" where
  "strip s = rev (dropWhile is_space (rev (dropWhile is_space s)))"

abbreviation nl :: char where
  "nl \<equiv> CHR 0x0A"

text \<open>\<open>s.split('\n')\<close>\<close>

fun split_nl :: "string \<Rightarrow> string list" where
  "split_nl [] = [[]]"
| "split_nl (c # cs) =
     (if c = nl then [] # split_nl cs
      else (case split_nl cs of
              [] \<Rightarrow> [[c]]
            | l # ls \<Rightarrow> (c # l) # ls))"

text \<open>
  \<open>f.readlines()\<close> on the text of the file, as Python hands it over in text mode
  (every line end is the character \<open>\n\<close>): the lines keep their final newline,
  the last line may lack one, and an empty text has no line.
\<close>

fun readlines :: "string \<Rightarrow> string list" where
  "readlines [] = []"
| "readlines (c # cs) =
     (if c = nl then [c] # readlines cs
      else (case readlines cs of
              [] \<Rightarrow> [[c]]
            | l # ls \<Rightarrow> (c # l) # ls))"

section \<open>Regular expressions and number parsing\<close>

text \<open>
  \<open>find_sub sub s\<close> cuts \<open>s\<close> at the leftmost occurrence of \<open>sub\<close>: the text
  before it, and the text from the occurrence on.
\<close>

fun find_sub :: "string \<Rightarrow> string \<Rightarrow> (string \<times> string) option" where
  "find_sub sub [] = (if sub = [] then Some ([], []) else None)"
| "find_sub sub (c # cs) =
     (if prefix sub (c # cs) then Some ([], c # cs)
      else (case find_sub sub cs of
              None \<Rightarrow> None
            | Some (pre, rest) \<Rightarrow> Some (c # pre, rest)))"

text \<open>
  \<open>re.split(r'(Copy with.*)', content)\<close>: the pieces of the text between the matches,
  with the matches themselves (the pattern is one capturing group) in between.  A
  match runs from \<open>Copy with\<close> to the end of its line, since \<open>.\<close> matches every
  character but the newline.
\<close>

function re_split :: "string \<Rightarrow> string list" where
  "re_split s =
     (case find_sub ''Copy with'' s of
        None \<Rightarrow> [s]
      | Some (pre, rest) \<Rightarrow>
          pre # takeWhile (\<lambda>c. c \<noteq> nl) rest # re_split (dropWhile (\<lambda>c. c \<noteq> nl) rest))"
  by pat_completeness auto

termination re_split
proof (relation "measure length")
  fix s x2 pre rest
  assume "find_sub ''Copy with'' s = Some x2" and "(pre, rest) = x2"
  then have f: "find_sub ''Copy with'' s = Some (pre, rest)"
    by simp
  have cut: "find_sub sub t = Some (p, r) \<Longrightarrow> t = p @ r \<and> prefix sub r" for sub t p r
    by (induction t arbitrary: p) (auto split: if_splits option.splits)
  from cut [OF f] obtain r where "s = pre @ rest" and "rest = CHR ''C'' # r"
    by (auto simp: prefix_def)
  then show "(dropWhile (\<lambda>c. c \<noteq> nl) rest, s) \<in> measure length"
    by (simp add: le_imp_less_Suc length_dropWhile_le trans_le_add2)
qed simp

declare re_split.simps [simp del]

definition is_tokchar :: "char \<Rightarrow> bool" where
  "is_tokchar c = (c = CHR ''.'' \<or> (CHR ''0'' \<le> c \<and> c \<le> CHR ''9''))"

text \<open>
  The pattern \<open>Completed in ([\d.]+)ms\<close> at the start of \<open>s\<close>.  The group is greedy,
  and no shorter run can be followed by \<open>ms\<close>, so only the longest run of digits and
  dots is tried.
\<close>

definition match_here :: "string \<Rightarrow> string option" where
  "match_here s =
     (if prefix ''Completed in '' s then
        (let rest = drop 13 s; tok = takeWhile is_tokchar rest
         in if tok \<noteq> [] \<and> prefix ''ms'' (dropWhile is_tokchar rest) then Some tok else None)
      else None)"

text \<open>
  \<open>re.search(r'Completed in ([\d.]+)ms', line)\<close>: the group of the leftmost match,
  \<open>None\<close> when the pattern matches nowhere.
\<close>

fun re_search :: "string \<Rightarrow> string option" where
  "re_search [] = None"
| "re_search (c # cs) =
     (case match_here (c # cs) of Some tok \<Rightarrow> Some tok | None \<Rightarrow> re_search cs)"

definition digit_val :: "char \<Rightarrow> nat" where
  "digit_val c = of_char c - 48"

definition digits_val :: "string \<Rightarrow> nat" where
  "digits_val ds = foldl (\<lambda>n c. 10 * n + digit_val c) 0 ds"

text \<open>
  \<open>float(tok)\<close> for a token of digits and dots.  Python accepts it when it has at most
  one dot and at least one digit, and raises \<open>ValueError\<close> otherwise.  The value is the
  decimal number the token denotes; the rounding to a binary64 is left out, and the
  times are real numbers.
\<close>

definition float :: "string \<Rightarrow> error + real" where
  "float tok =
     (let ip = takeWhile (\<lambda>c. c \<noteq> CHR ''.'') tok;
          rest = dropWhile (\<lambda>c. c \<noteq> CHR ''.'') tok;
          fp = tl rest
      in if CHR ''.'' \<in> set fp \<or> (ip = [] \<and> fp = []) then Inl ValueError
         else Inr (real (digits_val ip) + real (digits_val fp) / 10 ^ length fp))"

section \<open>Test cases\<close>

text \<open>
  A test case is the dictionary with the keys \<open>name\<close>, \<open>multicast\<close>, \<open>deep_copy\<close>
  and \<open>times\<close>.  The regex and the fixed-range scripts always store a string under
  \<open>deep_copy\<close>; the line-scanning script stores \<open>None\<close> until it finds a marker,
  so there the field is a \<open>string option\<close>.
\<close>

record 'd test_case =
  name :: string
  multicast :: bool
  deep_copy :: 'd
  times :: "real list"

text \<open>
  The block that all three scripts run on a line of trial data: a line with
  \<open>Trial\<close> and \<open>Completed in\<close> whose text matches the pattern gives a time, any
  other line gives none, and \<open>float\<close> may raise.
\<close>

definition match_time :: "string \<Rightarrow> error + real option" where
  "match_time line =
     (case re_search line of
        None \<Rightarrow> Inr None
      | Some tok \<Rightarrow> (case float tok of Inl e \<Rightarrow> Inl e | Inr t \<Rightarrow> Inr (Some t)))"

definition trial_time :: "string \<Rightarrow> error + real option" where
  "trial_time line =
     (if contains ''Trial'' line \<and> contains ''Completed in'' line then match_time line
      else Inr None)"

text \<open>The loop that collects the times of a list of lines, in order.\<close>

fun collect_times :: "string list \<Rightarrow> real list \<Rightarrow> error + real list" where
  "collect_times [] ts = Inr ts"
| "collect_times (l # ls) ts =
     (case trial_time l of
        Inl e \<Rightarrow> Inl e
      | Inr None \<Rightarrow> collect_times ls ts
      | Inr (Some t) \<Rightarrow> collect_times ls (ts @ [t]))"

section \<open>The regex-splitting parser (\<open>analyze_performance_correct.py\<close>)\<close>

record state_correct =
  current_section :: "string option"
  current_deep_copy :: "string option"
  test_cases :: "string test_case list"

text \<open>\<open>current_deep_copy or "Unknown"\<close>\<close>

definition or_unknown :: "string option \<Rightarrow> string" where
  "or_unknown d = (case d of None \<Rightarrow> ''Unknown'' | Some v \<Rightarrow> if v = [] then ''Unknown'' else v)"

text \<open>
  The naming of a section with times, from its header; \<open>None\<close> is the
  \<open>continue\<close> of the last branch.
\<close>

definition classify :: "string \<Rightarrow> string option \<Rightarrow> real list \<Rightarrow> string test_case option" where
  "classify sec dc ts =
     (if contains ''no swizzling'' sec then
        Some \<lparr>name = ''TMA No Swizzling'', multicast = False, deep_copy = ''1X'', times = ts\<rparr>
      else if contains ''Multicast'' sec \<and> \<not> contains ''NO multicast'' sec then
        Some \<lparr>name = ''TMA Multicast'', multicast = True, deep_copy = or_unknown dc, times = ts\<rparr>
      else if contains ''NO multicast'' sec then
        Some \<lparr>name = ''TMA No Multicast'', multicast = False, deep_copy = or_unknown dc, times = ts\<rparr>
      else None)"

text \<open>One turn of the loop over the pieces of the split.\<close>

definition step_correct :: "state_correct \<Rightarrow> string \<Rightarrow> error + state_correct" where
  "step_correct st section =
     (if startswith section ''Copy with'' then
        Inr (st\<lparr>current_section := Some (strip section), current_deep_copy := None\<rparr>)
      else if contains ''Deep copy 2X'' section then
        Inr (st\<lparr>current_deep_copy := Some ''2X''\<rparr>)
      else if contains ''Deep copy 4X'' section then
        Inr (st\<lparr>current_deep_copy := Some ''4X''\<rparr>)
      else if (case current_section st of None \<Rightarrow> False | Some sec \<Rightarrow> sec \<noteq> [])
              \<and> contains ''Trial'' section then
        (case collect_times (split_nl section) [] of
           Inl e \<Rightarrow> Inl e
         | Inr ts \<Rightarrow>
             if ts \<noteq> [] then
               (case classify (the (current_section st)) (current_deep_copy st) ts of
                  None \<Rightarrow> Inr st
                | Some tc \<Rightarrow> Inr (st\<lparr>test_cases := test_cases st @ [tc]\<rparr>))
             else Inr st)
      else Inr st)"

fun loop_correct :: "string list \<Rightarrow> state_correct \<Rightarrow> error + state_correct" where
  "loop_correct [] st = Inr st"
| "loop_correct (section # sections) st =
     (case step_correct st section of
        Inl e \<Rightarrow> Inl e
      | Inr st' \<Rightarrow> loop_correct sections st')"

text \<open>
  \<open>parse_performance_data\<close> of the script, on the text that \<open>f.read()\<close> returned.
\<close>

definition parse_performance_data_correct :: "string \<Rightarrow> error + string test_case list" where
  "parse_performance_data_correct content =
     (case loop_correct (re_split content)
             \<lparr>current_section = None, current_deep_copy = None, test_cases = []\<rparr> of
        Inl e \<Rightarrow> Inl e
      | Inr st \<Rightarrow> Inr (test_cases st))"

section \<open>The line-scanning parser (\<open>analyze_performance_fixed.py\<close>)\<close>

record state_fixed =
  cases_fixed :: "string option test_case list"
  current_case :: "string option test_case option"

text \<open>
  The search for a depth marker in the lines \<open>lines[i+1]\<close> to
  \<open>lines[min(i+5, len(lines)) - 1]\<close>; the argument is that list of lines.
\<close>

fun lookahead :: "string list \<Rightarrow> string option" where
  "lookahead [] = None"
| "lookahead (l # ls) =
     (let next_line = strip l
      in if contains ''Deep copy 2X'' next_line then Some ''2X''
         else if contains ''Deep copy 4X'' next_line then Some ''4X''
         else lookahead ls)"

text \<open>The chain of \<open>if\<close> and \<open>elif\<close> on the stripped line.\<close>

definition branch_fixed :: "state_fixed \<Rightarrow> string \<Rightarrow> error + state_fixed" where
  "branch_fixed st line =
     (if contains ''Copy with TMA load and store -- no swizzling'' line then
        Inr (st\<lparr>current_case := Some
          \<lparr>name = ''TMA No Swizzling'', multicast = False, deep_copy = Some ''1X'', times = []\<rparr>\<rparr>)
      else if contains ''Copy with TMA Multicast load and store'' line then
        Inr (st\<lparr>current_case := Some
          \<lparr>name = ''TMA Multicast'', multicast = True, deep_copy = None, times = []\<rparr>\<rparr>)
      else if contains ''Copy with TMA load and store, NO multicast'' line then
        Inr (st\<lparr>current_case := Some
          \<lparr>name = ''TMA No Multicast'', multicast = False, deep_copy = None, times = []\<rparr>\<rparr>)
      else if current_case st \<noteq> None \<and> startswith line ''Trial''
              \<and> contains ''Completed in'' line then
        (case match_time line of
           Inl e \<Rightarrow> Inl e
         | Inr None \<Rightarrow> Inr st
         | Inr (Some t) \<Rightarrow>
             Inr (st\<lparr>current_case :=
               map_option (\<lambda>c. c\<lparr>times := times c @ [t]\<rparr>) (current_case st)\<rparr>))
      else if startswith line ''Success'' \<and> current_case st \<noteq> None
              \<and> times (the (current_case st)) \<noteq> [] then
        Inr (st\<lparr>cases_fixed := cases_fixed st @ [the (current_case st)], current_case := None\<rparr>)
      else Inr st)"

text \<open>The look ahead that ends every turn of the loop.\<close>

definition set_depth :: "state_fixed \<Rightarrow> string list \<Rightarrow> state_fixed" where
  "set_depth st following =
     (case current_case st of
        None \<Rightarrow> st
      | Some c \<Rightarrow>
          if deep_copy c = None then
            (case lookahead (take 4 following) of
               None \<Rightarrow> st
             | Some d \<Rightarrow> st\<lparr>current_case := Some (c\<lparr>deep_copy := Some d\<rparr>)\<rparr>)
          else st)"

text \<open>
  The \<open>while\<close> loop, on the lines from \<open>lines[i]\<close> on: the line of this turn and
  the lines that follow it.
\<close>

fun loop_fixed :: "string list \<Rightarrow> state_fixed \<Rightarrow> error + state_fixed" where
  "loop_fixed [] st = Inr st"
| "loop_fixed (l # following) st =
     (case branch_fixed st (strip l) of
        Inl e \<Rightarrow> Inl e
      | Inr st' \<Rightarrow> loop_fixed following (set_depth st' following))"

definition parse_performance_data_fixed :: "string \<Rightarrow> error + string option test_case list" where
  "parse_performance_data_fixed content =
     (case loop_fixed (readlines content) \<lparr>cases_fixed = [], current_case = None\<rparr> of
        Inl e \<Rightarrow> Inl e
      | Inr st \<Rightarrow> Inr (cases_fixed st))"

section \<open>The fixed-range parser (\<open>analyze_performance_manual.py\<close>)\<close>

text \<open>
  The loop \<open>for i in range(a, b)\<close> over the line numbers of one section; a number
  past the end of the file is passed over.
\<close>

fun range_times :: "string list \<Rightarrow> nat list \<Rightarrow> real list \<Rightarrow> error + real list" where
  "range_times lines [] ts = Inr ts"
| "range_times lines (i # is) ts =
     (if i < length lines then
        (case trial_time (lines ! i) of
           Inl e \<Rightarrow> Inl e
         | Inr None \<Rightarrow> range_times lines is ts
         | Inr (Some t) \<Rightarrow> range_times lines is (ts @ [t]))
      else range_times lines is ts)"

definition parse_performance_data_manual :: "string \<Rightarrow> error + string test_case list" where
  "parse_performance_data_manual content =
     (let lines = readlines content in
      case range_times lines [4..<14] [] of Inl e \<Rightarrow> Inl e | Inr times_1 \<Rightarrow>
      case range_times lines [18..<28] [] of Inl e \<Rightarrow> Inl e | Inr times_2 \<Rightarrow>
      case range_times lines [32..<42] [] of Inl e \<Rightarrow> Inl e | Inr times_3 \<Rightarrow>
      case range_times lines [46..<56] [] of Inl e \<Rightarrow> Inl e | Inr times_4 \<Rightarrow>
      case range_times lines [60..<70] [] of Inl e \<Rightarrow> Inl e | Inr times_5 \<Rightarrow>
      Inr [\<lparr>name = ''TMA No Swizzling'', multicast = False, deep_copy = ''1X'', times = times_1\<rparr>,
           \<lparr>name = ''TMA Multicast'', multicast = True, deep_copy = ''2X'', times = times_2\<rparr>,
           \<lparr>name = ''TMA Multicast'', multicast = True, deep_copy = ''4X'', times = times_3\<rparr>,
           \<lparr>name = ''TMA No Multicast'', multicast = False, deep_copy = ''2X'', times = times_4\<rparr>,
           \<lparr>name = ''TMA No Multicast'', multicast = False, deep_copy = ''4X'', times = times_5\<rparr>])"

section \<open>Statistics\<close>

text \<open>
  The four numpy reductions that \<open>calculate_statistics\<close> calls, on real numbers:
  \<open>np.mean\<close> is the sum over the number of elements, and \<open>np.std\<close>, called with
  no \<open>ddof\<close>, is the square root of the mean of \<open>abs(a - a.mean())**2\<close>.
\<close>

definition np_mean :: "real list \<Rightarrow> real" where
  "np_mean a = sum_list a / real (length a)"

definition np_std :: "real list \<Rightarrow> real" where
  "np_std a = sqrt (np_mean (map (\<lambda>x. \<bar>x - np_mean a\<bar> ^ 2) a))"

definition np_min :: "real list \<Rightarrow> real" where
  "np_min a = fold min (tl a) (hd a)"

definition np_max :: "real list \<Rightarrow> real" where
  "np_max a = fold max (tl a) (hd a)"

record statistics =
  mean :: real
  std :: real
  minimum :: real
  maximum :: real
  count :: nat

text \<open>
  On an empty array \<open>np.min\<close> raises \<open>ValueError\<close> (the two calls before it only
  warn), so this is what \<open>calculate_statistics([])\<close> does.
\<close>

definition calculate_statistics :: "real list \<Rightarrow> error + statistics" where
  "calculate_statistics ts =
     (if ts = [] then Inl ValueError
      else Inr \<lparr>mean = np_mean ts, std = np_std ts, minimum = np_min ts,
                maximum = np_max ts, count = length ts\<rparr>)"

text \<open>
  The two conventions for the standard deviation, as the specification words them: the
  sum of the squared deviations from the mean over \<open>N\<close>, and over \<open>N - 1\<close>.
\<close>

definition squared_deviations :: "real list \<Rightarrow> real" where
  "squared_deviations ts = (\<Sum>t\<leftarrow>ts. (t - sum_list ts / real (length ts)) ^ 2)"

definition population_std :: "real list \<Rightarrow> real" where
  "population_std ts = sqrt (squared_deviations ts / real (length ts))"

definition sample_std :: "real list \<Rightarrow> real" where
  "sample_std ts = sqrt (squared_deviations ts / (real (length ts) - 1))"

section \<open>The printed summary\<close>

text \<open>
  \<open>print_summary\<close> prints two header lines and then, for each test case with times,
  a block: the line \<open>name (deep_copy)\<close> and the five statistics.  The model returns the
  list of the blocks, each with its title line and the statistics that the script
  formats.
\<close>

record block =
  title :: string
  stats :: statistics

text \<open>The text of \<open>{case['deep_copy']}\<close> when the value may be \<open>None\<close>.\<close>

definition str_depth :: "string option \<Rightarrow> string" where
  "str_depth d = (case d of None \<Rightarrow> ''None'' | Some v \<Rightarrow> v)"

text \<open>\<open>f"{case['name']} ({case['deep_copy']})"\<close>, for the given text of the depth.\<close>

definition label :: "('d \<Rightarrow> string) \<Rightarrow> 'd test_case \<Rightarrow> string" where
  "label str c = name c @ '' ('' @ str (deep_copy c) @ '')''"

fun summary_loop :: "('d \<Rightarrow> string) \<Rightarrow> 'd test_case list \<Rightarrow> error + block list" where
  "summary_loop str [] = Inr []"
| "summary_loop str (c # cs) =
     (if times c \<noteq> [] then
        (case calculate_statistics (times c) of
           Inl e \<Rightarrow> Inl e
         | Inr st \<Rightarrow>
             (case summary_loop str cs of
                Inl e \<Rightarrow> Inl e
              | Inr bs \<Rightarrow> Inr (\<lparr>title = label str c, stats = st\<rparr> # bs)))
      else summary_loop str cs)"

text \<open>
  \<open>test_cases.sort(key=lambda x: (x['name'], x['deep_copy']))\<close>: a stable sort on the
  pair of strings, each compared character by character.
\<close>

definition sort_cases :: "string test_case list \<Rightarrow> string test_case list" where
  "sort_cases cs = sort_key (\<lambda>x. (name x, deep_copy x)) cs"

definition print_summary_correct :: "string test_case list \<Rightarrow> error + block list" where
  "print_summary_correct cs = summary_loop (\<lambda>d. d) (sort_cases cs)"

definition print_summary_fixed :: "string option test_case list \<Rightarrow> error + block list" where
  "print_summary_fixed cs = summary_loop str_depth cs"

definition print_summary_manual :: "string test_case list \<Rightarrow> error + block list" where
  "print_summary_manual cs = summary_loop (\<lambda>d. d) cs"

section \<open>The chart\<close>

text \<open>
  \<open>create_plot\<close> fills the lists \<open>case_names\<close>, \<open>means\<close>, \<open>stds\<close> and
  \<open>colors\<close> and draws one bar for each position of them.  The model returns the bars.
\<close>

record bar =
  case_name :: string
  height :: real
  yerr :: real
  color :: string

definition color_map :: "string \<rightharpoonup> string" where
  "color_map = [''TMA No Swizzling'' \<mapsto> ''blue'', ''TMA Multicast'' \<mapsto> ''red'',
                ''TMA No Multicast'' \<mapsto> ''green'']"

text \<open>
  The body that the regex and the fixed-range scripts run for a test case they draw;
  \<open>color_map[case['name']]\<close> raises \<open>KeyError\<close> for another name.
\<close>

definition bar_of :: "string test_case \<Rightarrow> error + bar" where
  "bar_of c =
     (case calculate_statistics (times c) of
        Inl e \<Rightarrow> Inl e
      | Inr st \<Rightarrow>
          (case color_map (name c) of
             None \<Rightarrow> Inl KeyError
           | Some col \<Rightarrow>
               Inr \<lparr>case_name = label (\<lambda>d. d) c, height = mean st, yerr = std st, color = col\<rparr>))"

fun plot_loop :: "(string test_case \<Rightarrow> bool) \<Rightarrow> string test_case list \<Rightarrow> error + bar list" where
  "plot_loop drawn [] = Inr []"
| "plot_loop drawn (c # cs) =
     (if drawn c then
        (case bar_of c of
           Inl e \<Rightarrow> Inl e
         | Inr b \<Rightarrow> (case plot_loop drawn cs of Inl e \<Rightarrow> Inl e | Inr bs \<Rightarrow> Inr (b # bs)))
      else plot_loop drawn cs)"

definition create_plot_correct :: "string test_case list \<Rightarrow> error + bar list" where
  "create_plot_correct cs = plot_loop (\<lambda>c. times c \<noteq> []) (sort_cases cs)"

definition create_plot_manual :: "string test_case list \<Rightarrow> error + bar list" where
  "create_plot_manual cs =
     plot_loop (\<lambda>c. times c \<noteq> [] \<and> name c \<noteq> ''TMA No Multicast'') cs"

text \<open>
  The line-scanning script first groups the test cases under their label, in a
  dictionary that keeps the order in which the labels first appear.
\<close>

fun group_append ::
  "string \<Rightarrow> 'c \<Rightarrow> (string \<times> 'c list) list \<Rightarrow> (string \<times> 'c list) list" where
  "group_append key c [] = [(key, [c])]"
| "group_append key c ((k, cs) # g) =
     (if k = key then (k, cs @ [c]) # g else (k, cs) # group_append key c g)"

definition grouped_cases ::
  "string option test_case list \<Rightarrow> (string \<times> string option test_case list) list" where
  "grouped_cases cs = foldl (\<lambda>g c. group_append (label str_depth c) c g) [] cs"

definition color_fixed :: "string \<Rightarrow> string" where
  "color_fixed key =
     (if contains ''No Swizzling'' key then ''blue''
      else if contains ''Multicast'' key \<and> \<not> contains ''NO multicast'' key then ''red''
      else ''green'')"

fun plot_groups :: "(string \<times> string option test_case list) list \<Rightarrow> error + bar list" where
  "plot_groups [] = Inr []"
| "plot_groups ((key, cases) # g) =
     (let all_times = concat (map times cases)
      in if all_times \<noteq> [] then
           (case calculate_statistics all_times of
              Inl e \<Rightarrow> Inl e
            | Inr st \<Rightarrow>
                (case plot_groups g of
                   Inl e \<Rightarrow> Inl e
                 | Inr bs \<Rightarrow>
                     Inr (\<lparr>case_name = key, height = mean st, yerr = std st,
                            color = color_fixed key\<rparr> # bs)))
         else plot_groups g)"

definition create_plot_fixed :: "string option test_case list \<Rightarrow> error + bar list" where
  "create_plot_fixed cs = plot_groups (grouped_cases cs)"

section \<open>Notions used in the properties\<close>

text \<open>The log of the end-to-end example of the specification.\<close>

definition example_log :: string where
  "example_log = ''Copy with TMA load and store -- no swizzling\<newline>Trial 1: Completed in 0.512ms\<newline>Trial 2: Completed in 0.498ms\<newline>Success\<newline>''"

text \<open>A line on which the block for trial data raises.\<close>

definition raises :: "string \<Rightarrow> bool" where
  "raises line = (trial_time line = Inl ValueError)"

text \<open>
  The times that the lines with the numbers \<open>is\<close> carry, in that order; a number past
  the end of the file, or a line without a time, carries none.
\<close>

definition range_values :: "string list \<Rightarrow> nat list \<Rightarrow> real list" where
  "range_values lines is =
     concat (map (\<lambda>i. if i < length lines
                        then (case trial_time (lines ! i) of Inr (Some t) \<Rightarrow> [t] | _ \<Rightarrow> [])
                        else []) is)"

definition manual_ranges :: "nat list" where
  "manual_ranges = [4..<14] @ [18..<28] @ [32..<42] @ [46..<56] @ [60..<70]"

text \<open>A file of five lines whose line 4 is a line of trial data.\<close>

definition short_log :: string where
  "short_log = ''\<newline>\<newline>\<newline>\<newline>Trial 1: Completed in 1.25ms\<newline>''"

text \<open>
  The bar that the line-scanning script draws for a group: the statistics are those of
  the times of all the test cases of the group, one after the other.
\<close>

definition group_bar :: "string \<times> string option test_case list \<Rightarrow> bar" where
  "group_bar g =
     \<lparr>case_name = fst g, height = np_mean (concat (map times (snd g))),
      yerr = np_std (concat (map times (snd g))), color = color_fixed (fst g)\<rparr>"


text \<open>Test cases for the examples: with and without times.\<close>

definition case_of :: "string \<Rightarrow> 'd \<Rightarrow> real list \<Rightarrow> 'd test_case" where
  "case_of n d ts = \<lparr>name = n, multicast = (n = ''TMA Multicast''), deep_copy = d, times = ts\<rparr>"

text \<open>
  All the times that a state of the line-scanning parser holds: those of the test
  cases it has closed and those of the one it is filling.
\<close>

definition all_times :: "state_fixed \<Rightarrow> real list" where
  "all_times st =
     concat (map times (cases_fixed st))
       @ (case current_case st of None \<Rightarrow> [] | Some c \<Rightarrow> times c)"



definition no_marker_log :: string where
  "no_marker_log = ''Copy with TMA Multicast load and store\<newline>Trial 1: Completed in 0.5ms\<newline>Success\<newline>''"









section \<open>Properties of the statistics\<close>

lemma np_std_population: "np_std ts = population_std ts"
  by (simp add: np_std_def np_mean_def population_std_def squared_deviations_def)

lemma squared_deviations_nonneg: "0 \<le> squared_deviations ts"
  unfolding squared_deviations_def by (rule sum_list_nonneg) auto

lemma squared_deviations_single: "length ts = 1 \<Longrightarrow> squared_deviations ts = 0"
  by (cases ts) (auto simp: squared_deviations_def)

lemma population_less_sample:
  assumes "squared_deviations ts \<noteq> 0"
  shows "population_std ts < sample_std ts"
proof -
  have pos: "0 < squared_deviations ts"
    using assms squared_deviations_nonneg [of ts] by simp
  have "ts \<noteq> []" using assms by (auto simp: squared_deviations_def)
  moreover have "length ts \<noteq> 1" using assms squared_deviations_single by blast
  ultimately have n: "2 \<le> length ts" by (cases ts) (auto simp: Suc_le_eq)
  then have "real (length ts) - 1 < real (length ts)" and d: "0 < real (length ts) - 1"
    by simp_all
  moreover from d have "0 < real (length ts) * (real (length ts) - 1)"
    by (intro mult_pos_pos) auto
  ultimately have "squared_deviations ts / real (length ts)
      < squared_deviations ts / (real (length ts) - 1)"
    using pos by (intro divide_strict_left_mono)
  then show ?thesis
    by (simp add: population_std_def sample_std_def)
qed

text \<open>
  Claim C5.  For every non-empty list of times the \<open>std\<close> field of the record that
  \<open>calculate_statistics\<close> returns is the population standard deviation: the square root
  of the sum of the squared deviations from the mean over \<open>N\<close>.  It is not the sample
  standard deviation: whenever the deviations are not all zero it is strictly below the
  value that the divisor \<open>N - 1\<close> gives.  The arithmetic is that of the real numbers.
\<close>

theorem std_is_population:
  "ts \<noteq> [] \<Longrightarrow>
     \<exists>st. calculate_statistics ts = Inr st \<and> std st = population_std ts
        \<and> (squared_deviations ts \<noteq> 0 \<longrightarrow> std st < sample_std ts)"
  by (simp add: calculate_statistics_def np_std_population population_less_sample)

theorem std_is_population_witness:
  "[1, 3 :: real] \<noteq> [] \<and> squared_deviations [1, 3] \<noteq> 0
     \<and> (\<exists>st. calculate_statistics [1, 3] = Inr st \<and> std st = population_std [1, 3]
            \<and> std st < sample_std [1, 3])"
  using std_is_population [of "[1, 3]"] by (simp add: squared_deviations_def)

section \<open>The end-to-end example\<close>

lemma example_correct:
  "parse_performance_data_correct example_log =
     Inr [\<lparr>name = ''TMA No Swizzling'', multicast = False, deep_copy = ''1X'',
            times = [0.512, 0.498]\<rparr>]"
  by code_simp

lemma example_fixed:
  "parse_performance_data_fixed example_log =
     Inr [\<lparr>name = ''TMA No Swizzling'', multicast = False, deep_copy = Some ''1X'',
            times = [0.512, 0.498]\<rparr>]"
  by code_simp

lemma example_statistics:
  "\<exists>st. calculate_statistics [0.512, 0.498] = Inr st \<and> mean st = 0.505 \<and> std st = 0.007
     \<and> minimum st = 0.498 \<and> maximum st = 0.512 \<and> count st = 2"
proof -
  have m: "np_mean [0.512, 0.498] = 0.505"
    by (simp add: np_mean_def)
  have "np_mean (map (\<lambda>x. \<bar>x - 0.505\<bar> ^ 2) [0.512, 0.498 :: real]) = (0.007::real) ^ 2"
    by (simp add: np_mean_def power2_eq_square)
  then have s: "np_std [0.512, 0.498] = 0.007"
    unfolding np_std_def m by (simp only: real_sqrt_abs) simp
  show ?thesis
    unfolding calculate_statistics_def using m s by (simp add: np_min_def np_max_def)
qed

text \<open>
  Claim C4.  On the log of the example (the header of the no-swizzling case, two trial
  lines with the times 0.512 and 0.498, and the line \<open>Success\<close>) the regex-splitting
  and the line-scanning parsers each return exactly one test case, named
  \<open>TMA No Swizzling\<close>, with depth \<open>1X\<close>, not multicast, and with the times 0.512 and
  0.498; and \<open>calculate_statistics\<close> on those times gives a mean within 0.001 of 0.505 and
  a standard deviation within 0.001 of 0.007.
\<close>

theorem end_to_end_example:
  "parse_performance_data_correct example_log =
     Inr [\<lparr>name = ''TMA No Swizzling'', multicast = False, deep_copy = ''1X'',
            times = [0.512, 0.498]\<rparr>]
   \<and> parse_performance_data_fixed example_log =
     Inr [\<lparr>name = ''TMA No Swizzling'', multicast = False, deep_copy = Some ''1X'',
            times = [0.512, 0.498]\<rparr>]
   \<and> (\<exists>st. calculate_statistics [0.512, 0.498] = Inr st
          \<and> \<bar>mean st - 0.505\<bar> \<le> 0.001 \<and> \<bar>std st - 0.007\<bar> \<le> 0.001)"
proof -
  obtain st where "calculate_statistics [0.512, 0.498] = Inr st"
    and "mean st = 0.505" and "std st = 0.007"
    using example_statistics by blast
  then have "\<exists>st. calculate_statistics [0.512, 0.498] = Inr st
      \<and> \<bar>mean st - 0.505\<bar> \<le> 0.001 \<and> \<bar>std st - 0.007\<bar> \<le> 0.001"
    by simp
  with example_correct example_fixed show ?thesis
    by blast
qed

section \<open>The fixed-range parser\<close>

lemma float_error: "float tok = Inl e \<Longrightarrow> e = ValueError"
  by (auto simp: float_def Let_def split: if_splits)

lemma match_time_error: "match_time l = Inl e \<Longrightarrow> e = ValueError"
  by (auto simp: match_time_def split: option.splits sum.splits dest: float_error)

lemma trial_time_error: "trial_time l = Inl e \<Longrightarrow> e = ValueError"
  by (auto simp: trial_time_def split: if_splits dest: match_time_error)

lemma range_times_eq:
  "range_times lines is ts =
     (if \<exists>i\<in>set is. i < length lines \<and> raises (lines ! i) then Inl ValueError
      else Inr (ts @ range_values lines is))"
proof (induction "is" arbitrary: ts)
  case Nil
  then show ?case by (simp add: range_values_def)
next
  case (Cons i "is")
  show ?case
  proof (cases "i < length lines")
    case False
    then show ?thesis using Cons by (simp add: range_values_def)
  next
    case True
    show ?thesis
    proof (cases "trial_time (lines ! i)")
      case (Inl e)
      then have e: "e = ValueError" by (rule trial_time_error)
      with Inl have "raises (lines ! i)" by (simp add: raises_def)
      with True Inl e show ?thesis by auto
    next
      case (Inr v)
      then have "\<not> raises (lines ! i)" by (simp add: raises_def)
      with True Inr Cons show ?thesis by (cases v) (auto simp: range_values_def)
    qed
  qed
qed

text \<open>
  Claim C10, as the statement reads: the fixed-range parser returns five test cases for
  every file.  It does not on a file whose line 4 has the token \<open>1.2.3\<close>, which the
  pattern matches and \<open>float\<close> rejects.
\<close>

theorem manual_parse_raises:
  "parse_performance_data_manual
     ''\<newline>\<newline>\<newline>\<newline>Trial 1: Completed in 1.2.3ms\<newline>'' = Inl ValueError"
  by code_simp

text \<open>
  Claim C10, amended.  The fixed-range parser raises \<open>ValueError\<close> when a line it reads
  in the ranges 4-13, 18-27, 32-41, 46-55 and 60-69 carries a token that \<open>float\<close>
  rejects.  On every other file, whatever its content, it returns exactly five test
  cases, in this order and with these names, flags and depths; the times of each are
  the times carried by the lines of its range that exist in the file, and may be empty.
\<close>

theorem manual_parse_shape:
  "parse_performance_data_manual content =
     (let lines = readlines content in
      if \<exists>i\<in>set manual_ranges. i < length lines \<and> raises (lines ! i) then Inl ValueError
      else Inr
        [\<lparr>name = ''TMA No Swizzling'', multicast = False, deep_copy = ''1X'',
            times = range_values lines [4..<14]\<rparr>,
         \<lparr>name = ''TMA Multicast'', multicast = True, deep_copy = ''2X'',
            times = range_values lines [18..<28]\<rparr>,
         \<lparr>name = ''TMA Multicast'', multicast = True, deep_copy = ''4X'',
            times = range_values lines [32..<42]\<rparr>,
         \<lparr>name = ''TMA No Multicast'', multicast = False, deep_copy = ''2X'',
            times = range_values lines [46..<56]\<rparr>,
         \<lparr>name = ''TMA No Multicast'', multicast = False, deep_copy = ''4X'',
            times = range_values lines [60..<70]\<rparr>])"
  unfolding parse_performance_data_manual_def Let_def range_times_eq manual_ranges_def set_append
  by (simp only: bex_Un sum.case if_distrib[of "case_sum _ _"] append_Nil split: if_splits) auto

theorem manual_parse_shape_witness:
  "\<not> (\<exists>i\<in>set manual_ranges. i < length (readlines short_log) \<and> raises (readlines short_log ! i))
   \<and> parse_performance_data_manual short_log =
      Inr [\<lparr>name = ''TMA No Swizzling'', multicast = False, deep_copy = ''1X'', times = [1.25]\<rparr>,
           \<lparr>name = ''TMA Multicast'', multicast = True, deep_copy = ''2X'', times = []\<rparr>,
           \<lparr>name = ''TMA Multicast'', multicast = True, deep_copy = ''4X'', times = []\<rparr>,
           \<lparr>name = ''TMA No Multicast'', multicast = False, deep_copy = ''2X'', times = []\<rparr>,
           \<lparr>name = ''TMA No Multicast'', multicast = False, deep_copy = ''4X'', times = []\<rparr>]"
proof -
  have c: "\<not> (\<exists>i\<in>set manual_ranges. i < length (readlines short_log)
      \<and> raises (readlines short_log ! i))"
    by code_simp
  have v: "range_values (readlines short_log) [4..<14] = [1.25]"
    "range_values (readlines short_log) [18..<28] = []"
    "range_values (readlines short_log) [32..<42] = []"
    "range_values (readlines short_log) [46..<56] = []"
    "range_values (readlines short_log) [60..<70] = []"
    by code_simp+
  show ?thesis
    using manual_parse_shape [of short_log] c unfolding Let_def v by simp
qed

section \<open>The summary and the chart\<close>

lemma summary_loop_eq:
  "summary_loop str cs =
     Inr (map (\<lambda>c. \<lparr>title = label str c, stats = projr (calculate_statistics (times c))\<rparr>)
           (filter (\<lambda>c. times c \<noteq> []) cs))"
  by (induction cs) (simp_all add: calculate_statistics_def)

lemma summary_loop_blocks:
  "\<exists>bs. summary_loop str cs = Inr bs
     \<and> map title bs = map (label str) (filter (\<lambda>c. times c \<noteq> []) cs)
     \<and> (\<forall>b\<in>set bs. 0 < count (stats b))"
  unfolding summary_loop_eq by (auto simp: comp_def calculate_statistics_def)

lemma plot_loop_names:
  "plot_loop drawn cs = Inr bars \<Longrightarrow> map case_name bars = map (label (\<lambda>d. d)) (filter drawn cs)"
  by (induction cs arbitrary: bars)
     (auto simp: bar_of_def split: if_splits sum.splits option.splits)

lemma group_append_keys:
  "map fst (group_append k c g) = (if k \<in> fst ` set g then map fst g else map fst g @ [k])"
  by (induction g) (auto split: if_splits)

lemma group_append_map_of:
  "map_of (group_append k c g) =
     (map_of g)(k \<mapsto> (case map_of g k of None \<Rightarrow> [c] | Some cs \<Rightarrow> cs @ [c]))"
  by (induction g) (auto simp: fun_eq_iff)

lemma foldl_groups_distinct:
  "distinct (map fst g) \<Longrightarrow> distinct (map fst (foldl (\<lambda>g c. group_append (f c) c g) g cs))"
  by (induction cs arbitrary: g) (simp_all add: group_append_keys)

lemma foldl_groups_map_of:
  "map_of (foldl (\<lambda>g c. group_append (f c) c g) g cs) k =
     (case map_of g k of
        None \<Rightarrow> if filter (\<lambda>c. f c = k) cs = [] then None else Some (filter (\<lambda>c. f c = k) cs)
      | Some old \<Rightarrow> Some (old @ filter (\<lambda>c. f c = k) cs))"
  by (induction cs arbitrary: g) (auto simp: group_append_map_of split: option.splits)

lemma grouped_cases_distinct: "distinct (map fst (grouped_cases cs))"
  unfolding grouped_cases_def by (rule foldl_groups_distinct) simp

lemma grouped_cases_map_of:
  "map_of (grouped_cases cs) k =
     (if filter (\<lambda>c. label str_depth c = k) cs = [] then None
      else Some (filter (\<lambda>c. label str_depth c = k) cs))"
  unfolding grouped_cases_def by (simp add: foldl_groups_map_of)

lemma grouped_cases_member:
  "(k, grp) \<in> set (grouped_cases cs) \<longleftrightarrow>
     grp = filter (\<lambda>c. label str_depth c = k) cs \<and> grp \<noteq> []"
  using map_of_eq_Some_iff [OF grouped_cases_distinct, of cs k grp]
  by (auto simp: grouped_cases_map_of split: if_splits)

lemma plot_groups_eq:
  "plot_groups g = Inr (map group_bar (filter (\<lambda>g. concat (map times (snd g)) \<noteq> []) g))"
  by (induction g rule: plot_groups.induct)
     (simp_all add: Let_def calculate_statistics_def group_bar_def)


lemma plot_fixed_bars:
  "\<exists>bars. create_plot_fixed cs = Inr bars
     \<and> (\<forall>b\<in>set bars. \<exists>c\<in>set cs. label str_depth c = case_name b \<and> times c \<noteq> [])"
proof -
  have "\<exists>c\<in>set cs. label str_depth c = fst g \<and> times c \<noteq> []"
    if "g \<in> set (grouped_cases cs)" and "concat (map times (snd g)) \<noteq> []" for g
  proof -
    from that(1) have s: "snd g = filter (\<lambda>c. label str_depth c = fst g) cs"
      using grouped_cases_member [of "fst g" "snd g" cs] by simp
    from that(2) obtain c where "c \<in> set (snd g)" and "times c \<noteq> []"
      by auto
    with s have "c \<in> set cs \<and> label str_depth c = fst g \<and> times c \<noteq> []"
      by auto
    then show ?thesis by blast
  qed
  then show ?thesis
    by (auto simp: create_plot_fixed_def plot_groups_eq group_bar_def)
qed

text \<open>
  Claim C8.  In each of the three scripts the printed summary has a block for a test
  case only when the test case has at least one time: \<open>print_summary\<close> always returns,
  its blocks are those of the test cases with times, in the order of the list (the
  sorted list in the regex script), and the \<open>Trials\<close> count of every block is at least
  one.  The same holds for the chart: when \<open>create_plot\<close> returns, its bars are those
  of test cases (of groups, in the line-scanning script) that have times.
\<close>

theorem reported_cases_have_trials:
  "(\<exists>bs. print_summary_correct cs = Inr bs
        \<and> map title bs = map (label (\<lambda>d. d)) (filter (\<lambda>c. times c \<noteq> []) (sort_cases cs))
        \<and> (\<forall>b\<in>set bs. 0 < count (stats b)))
   \<and> (\<exists>bs. print_summary_fixed cs' = Inr bs
        \<and> map title bs = map (label str_depth) (filter (\<lambda>c. times c \<noteq> []) cs')
        \<and> (\<forall>b\<in>set bs. 0 < count (stats b)))
   \<and> (\<exists>bs. print_summary_manual cs = Inr bs
        \<and> map title bs = map (label (\<lambda>d. d)) (filter (\<lambda>c. times c \<noteq> []) cs)
        \<and> (\<forall>b\<in>set bs. 0 < count (stats b)))
   \<and> (\<forall>bars. create_plot_correct cs = Inr bars \<longrightarrow>
        map case_name bars = map (label (\<lambda>d. d)) (filter (\<lambda>c. times c \<noteq> []) (sort_cases cs)))
   \<and> (\<exists>bars. create_plot_fixed cs' = Inr bars
        \<and> (\<forall>b\<in>set bars. \<exists>c\<in>set cs'. label str_depth c = case_name b \<and> times c \<noteq> []))
   \<and> (\<forall>bars. create_plot_manual cs = Inr bars \<longrightarrow>
        (\<forall>b\<in>set bars. \<exists>c\<in>set cs. label (\<lambda>d. d) c = case_name b \<and> times c \<noteq> []))"
proof -
  have "\<exists>c\<in>set cs. label (\<lambda>d. d) c = case_name b \<and> times c \<noteq> []"
    if "create_plot_manual cs = Inr bars" and "b \<in> set bars" for bars b
  proof -
    from that(1) have "map case_name bars = map (label (\<lambda>d. d))
        (filter (\<lambda>c. times c \<noteq> [] \<and> name c \<noteq> ''TMA No Multicast'') cs)"
      unfolding create_plot_manual_def by (rule plot_loop_names)
    moreover from that(2) have "case_name b \<in> set (map case_name bars)"
      by simp
    ultimately show ?thesis by auto
  qed
  then show ?thesis
    using summary_loop_blocks [of "\<lambda>d. d" "sort_cases cs"] summary_loop_blocks [of str_depth cs']
      summary_loop_blocks [of "\<lambda>d. d" cs] plot_fixed_bars [of cs']
      plot_loop_names [of "\<lambda>c. times c \<noteq> []" "sort_cases cs"]
    unfolding print_summary_correct_def print_summary_fixed_def print_summary_manual_def
      create_plot_correct_def
    by blast
qed

theorem reported_cases_have_trials_witness:
  "(\<exists>bs. print_summary_correct [case_of ''TMA Multicast'' ''4X'' [], case_of ''TMA Multicast'' ''2X'' [1]]
            = Inr bs
        \<and> map title bs = [''TMA Multicast (2X)''] \<and> map (\<lambda>b. count (stats b)) bs = [1])
   \<and> (\<exists>bs. print_summary_fixed [case_of ''TMA Multicast'' None [], case_of ''TMA Multicast'' None [1]]
            = Inr bs
        \<and> map title bs = [''TMA Multicast (None)''] \<and> map (\<lambda>b. count (stats b)) bs = [1])
   \<and> (\<exists>bs. print_summary_manual [case_of ''TMA Multicast'' ''4X'' [], case_of ''TMA Multicast'' ''2X'' [1]]
            = Inr bs
        \<and> map title bs = [''TMA Multicast (2X)''] \<and> map (\<lambda>b. count (stats b)) bs = [1])
   \<and> (\<exists>bars. create_plot_correct [case_of ''TMA Multicast'' ''4X'' [], case_of ''TMA Multicast'' ''2X'' [1]]
            = Inr bars
        \<and> map case_name bars = [''TMA Multicast (2X)''])
   \<and> (\<exists>bars. create_plot_fixed [case_of ''TMA Multicast'' None [], case_of ''TMA Multicast'' None [1]]
            = Inr bars
        \<and> map case_name bars = [''TMA Multicast (None)''])
   \<and> (\<exists>bars. create_plot_manual [case_of ''TMA Multicast'' ''4X'' [], case_of ''TMA Multicast'' ''2X'' [1]]
            = Inr bars
        \<and> map case_name bars = [''TMA Multicast (2X)''])"
  using reported_cases_have_trials
    [of "[case_of ''TMA Multicast'' ''4X'' [], case_of ''TMA Multicast'' ''2X'' [1]]"
        "[case_of ''TMA Multicast'' None [], case_of ''TMA Multicast'' None [1]]"]
  by (simp add: case_of_def sort_cases_def label_def str_depth_def
        print_summary_correct_def print_summary_fixed_def print_summary_manual_def
        create_plot_correct_def create_plot_fixed_def create_plot_manual_def
        grouped_cases_def calculate_statistics_def bar_of_def color_map_def Let_def)

text \<open>
  Claim C9.  In the fixed-range script, whose chart leaves out the cases named
  \<open>TMA No Multicast\<close>: for a list of one such case and one case named
  \<open>TMA Multicast\<close>, in either order and both with times, \<open>create_plot\<close> draws
  exactly one bar, the one of the multicast case, and \<open>print_summary\<close> prints a block
  for both.
\<close>

theorem manual_plot_excludes_no_multicast:
  assumes "name a = ''TMA No Multicast''" and "name b = ''TMA Multicast''"
    and "times a \<noteq> []" and "times b \<noteq> []"
    and "cs = [a, b] \<or> cs = [b, a]"
  shows "(\<exists>bar. create_plot_manual cs = Inr [bar] \<and> case_name bar = label (\<lambda>d. d) b)
       \<and> (\<exists>bs. print_summary_manual cs = Inr bs \<and> map title bs = map (label (\<lambda>d. d)) cs)"
proof -
  have "\<exists>bar. create_plot_manual cs = Inr [bar] \<and> case_name bar = label (\<lambda>d. d) b"
    using assms
    by (auto simp: create_plot_manual_def bar_of_def calculate_statistics_def color_map_def)
  moreover have "\<exists>bs. print_summary_manual cs = Inr bs \<and> map title bs = map (label (\<lambda>d. d)) cs"
    using assms by (auto simp: print_summary_manual_def summary_loop_eq)
  ultimately show ?thesis by blast
qed

theorem manual_plot_excludes_no_multicast_witness:
  "(\<exists>bar. create_plot_manual [case_of ''TMA No Multicast'' ''2X'' [2], case_of ''TMA Multicast'' ''2X'' [1]]
            = Inr [bar]
        \<and> case_name bar = ''TMA Multicast (2X)'')
   \<and> (\<exists>bs. print_summary_manual [case_of ''TMA No Multicast'' ''2X'' [2], case_of ''TMA Multicast'' ''2X'' [1]]
            = Inr bs
        \<and> map title bs = [''TMA No Multicast (2X)'', ''TMA Multicast (2X)''])"
  using manual_plot_excludes_no_multicast
    [of "case_of ''TMA No Multicast'' ''2X'' [2]" "case_of ''TMA Multicast'' ''2X'' [1]"
        "[case_of ''TMA No Multicast'' ''2X'' [2], case_of ''TMA Multicast'' ''2X'' [1]]"]
  by (simp add: case_of_def label_def)

section \<open>Sections of the same identity\<close>




section \<open>Lines without a number\<close>

















section \<open>A section without a depth marker\<close>

text \<open>
  Claim C3 at the log of one multicast section with no depth marker.  The regex parser
  gives the depth \<open>Unknown\<close>.  The line-scanning parser leaves the depth \<open>None\<close>,
  and the summary prints it as \<open>None\<close>.
\<close>

theorem depth_stays_none:
  "parse_performance_data_fixed no_marker_log = Inr [case_of ''TMA Multicast'' None [0.5]]
   \<and> map_sum id (map title) (print_summary_fixed [case_of ''TMA Multicast'' None [0.5]])
       = Inr [''TMA Multicast (None)'']
   \<and> parse_performance_data_correct no_marker_log =
       Inr [case_of ''TMA Multicast'' ''Unknown'' [0.5]]"
proof -
  have "parse_performance_data_fixed no_marker_log = Inr [case_of ''TMA Multicast'' None [0.5]]"
    by code_simp
  moreover have "parse_performance_data_correct no_marker_log =
      Inr [case_of ''TMA Multicast'' ''Unknown'' [0.5]]"
    by code_simp
  moreover have "map_sum id (map title) (print_summary_fixed [case_of ''TMA Multicast'' None [0.5]])
      = Inr [''TMA Multicast (None)'']"
    by (simp add: print_summary_fixed_def case_of_def calculate_statistics_def label_def
          str_depth_def)
  ultimately show ?thesis by blast
qed

text \<open>
  The line-scanning parser never gives the depth \<open>Unknown\<close>: the depth of every
  test case it returns is \<open>None\<close>, \<open>1X\<close>, \<open>2X\<close> or \<open>4X\<close>.
\<close>

lemma lookahead_values: "lookahead ls = Some d \<Longrightarrow> d = ''2X'' \<or> d = ''4X''"
  by (induction ls) (auto simp: Let_def split: if_splits)

lemma branch_depths:
  assumes "branch_fixed st line = Inr st'"
    and "\<forall>c\<in>set (cases_fixed st) \<union> set_option (current_case st). deep_copy c \<in> D"
    and "{None, Some ''1X''} \<subseteq> D"
  shows "\<forall>c\<in>set (cases_fixed st') \<union> set_option (current_case st'). deep_copy c \<in> D"
  using assms
  by (auto simp: branch_fixed_def split: if_splits sum.splits option.splits)

lemma set_depth_depths:
  assumes "\<forall>c\<in>set (cases_fixed st) \<union> set_option (current_case st). deep_copy c \<in> D"
    and "{Some ''2X'', Some ''4X''} \<subseteq> D"
  shows "\<forall>c\<in>set (cases_fixed (set_depth st following))
           \<union> set_option (current_case (set_depth st following)). deep_copy c \<in> D"
  using assms
  by (auto simp: set_depth_def split: option.splits dest: lookahead_values)

lemma loop_fixed_depths:
  assumes "{None, Some ''1X'', Some ''2X'', Some ''4X''} \<subseteq> D"
  shows "loop_fixed ls st = Inr st' \<Longrightarrow>
     \<forall>c\<in>set (cases_fixed st) \<union> set_option (current_case st). deep_copy c \<in> D \<Longrightarrow>
     \<forall>c\<in>set (cases_fixed st') \<union> set_option (current_case st'). deep_copy c \<in> D"
proof (induction ls arbitrary: st)
  case Nil
  then show ?case by simp
next
  case (Cons l ls)
  then obtain st1 where b: "branch_fixed st (strip l) = Inr st1"
    and l: "loop_fixed ls (set_depth st1 ls) = Inr st'"
    by (auto split: sum.splits)
  from branch_depths [OF b Cons.prems(2)] assms
  have "\<forall>c\<in>set (cases_fixed st1) \<union> set_option (current_case st1). deep_copy c \<in> D"
    by simp
  then have "\<forall>c\<in>set (cases_fixed (set_depth st1 ls))
           \<union> set_option (current_case (set_depth st1 ls)). deep_copy c \<in> D"
    using assms by (intro set_depth_depths) simp_all
  with Cons.IH [OF l] show ?case by blast
qed

lemma fixed_never_unknown:
  assumes "parse_performance_data_fixed content = Inr cs" and "c \<in> set cs"
  shows "deep_copy c \<in> {None, Some ''1X'', Some ''2X'', Some ''4X''}"
proof -
  from assms(1) obtain st' where "loop_fixed (readlines content)
      \<lparr>cases_fixed = [], current_case = None\<rparr> = Inr st'" and "cs = cases_fixed st'"
    by (auto simp: parse_performance_data_fixed_def split: sum.splits)
  with loop_fixed_depths [of "{None, Some ''1X'', Some ''2X'', Some ''4X''}" "readlines content"
      "\<lparr>cases_fixed = [], current_case = None\<rparr>" st'] assms(2)
  show ?thesis by simp
qed

section \<open>Well-formed sections\<close>

subsection \<open>Lines and strings\<close>















subsection \<open>A section in the line-scanning parser\<close>




















subsection \<open>The split at the headers\<close>







subsection \<open>A section in the regex parser\<close>








lemma split_nl_nonempty: "split_nl s \<noteq> []"
  by (induction s) (auto split: list.splits)


























subsection \<open>The sections that give a test case\<close>




section \<open>The statistics in exact arithmetic\<close>

text \<open>
  The times of the model are real numbers, and its reductions add, divide and take
  roots without rounding.  With that arithmetic the mean of a non-empty list lies
  between its least and its greatest element, the standard deviation is not negative,
  and it is zero for a list whose elements are all the same.  The script computes in
  binary64, where each sum and quotient is rounded; what the rounding does to these
  comparisons is outside the model.
\<close>

lemma np_min_Min: "ts \<noteq> [] \<Longrightarrow> np_min ts = Min (set ts)"
proof (cases ts)
  case (Cons a list)
  then show ?thesis using Min.set_eq_fold [of a list] by (simp add: np_min_def)
qed simp

lemma np_max_Max: "ts \<noteq> [] \<Longrightarrow> np_max ts = Max (set ts)"
proof (cases ts)
  case (Cons a list)
  then show ?thesis using Max.set_eq_fold [of a list] by (simp add: np_max_def)
qed simp

lemma sum_list_bounds:
  fixes ts :: "real list"
  assumes "\<forall>t\<in>set ts. lo \<le> t \<and> t \<le> hi"
  shows "real (length ts) * lo \<le> sum_list ts \<and> sum_list ts \<le> real (length ts) * hi"
  using assms by (induction ts) (auto simp: algebra_simps)

lemma np_mean_bounds:
  assumes "ts \<noteq> []"
  shows "np_min ts \<le> np_mean ts \<and> np_mean ts \<le> np_max ts"
proof -
  have "\<forall>t\<in>set ts. Min (set ts) \<le> t \<and> t \<le> Max (set ts)"
    by simp
  from sum_list_bounds [OF this] assms show ?thesis
    by (simp add: np_mean_def np_min_Min np_max_Max pos_le_divide_eq pos_divide_le_eq mult.commute)
qed

lemma np_std_nonneg: "0 \<le> np_std ts"
  unfolding np_std_population population_std_def
  using squared_deviations_nonneg [of ts] by simp

lemma sum_list_zero: "\<forall>x\<in>set xs. f x = (0::real) \<Longrightarrow> sum_list (map f xs) = 0"
  by (induction xs) simp_all

lemma np_std_constant:
  assumes "\<forall>t\<in>set ts. t = c"
  shows "np_std ts = 0"
proof -
  from assms have "ts = replicate (length ts) c"
    by (simp add: replicate_length_same)
  then have "sum_list ts = real (length ts) * c"
    by (metis sum_list_replicate)
  then have "t - sum_list ts / real (length ts) = 0" if "t \<in> set ts" for t
    using that assms by (cases "ts = []") auto
  then have "squared_deviations ts = 0"
    unfolding squared_deviations_def by (intro sum_list_zero) simp
  then show ?thesis
    by (simp add: np_std_population population_std_def)
qed

lemma statistics_exact:
  assumes "ts \<noteq> []"
  shows "\<exists>st. calculate_statistics ts = Inr st \<and> minimum st \<le> mean st \<and> mean st \<le> maximum st
           \<and> 0 \<le> std st \<and> ((\<forall>t\<in>set ts. t = hd ts) \<longrightarrow> std st = 0)"
  using assms np_mean_bounds [OF assms] np_std_nonneg [of ts] np_std_constant [of ts "hd ts"]
  by (simp add: calculate_statistics_def)

end
